theory Spec2Isabelle
  imports Main "HOL-Library.Word"
begin

section \<open>JavaScript strings and values\<close>

text \<open>
  The program is \<^verbatim>\<open>src/frontend/src/App.jsx\<close>, a React component. A JavaScript string is a
  sequence of UTF-16 code units, so it is modelled as a list of 16-bit words. String
  literals of the source are written with \<open>js\<close>, which maps an ASCII literal to its code units.
\<close>

type_synonym jsstring = "16 word list"

definition js :: "string \<Rightarrow> jsstring" where
  "js s = map (\<lambda>c. of_nat (of_char c)) s"

definition dquote :: "16 word" where "dquote = 0x22"
definition comma :: "16 word" where "comma = 0x2C"
definition LF :: "16 word" where "LF = 0x0A"
definition CR :: "16 word" where "CR = 0x0D"

text \<open>
  \<^verbatim>\<open>String.prototype.trim\<close> removes the code units of ECMAScript's WhiteSpace and
  LineTerminator productions from both ends. All of them lie in the Basic Multilingual
  Plane, so trimming works on single code units.
\<close>

definition isWhiteSpace :: "16 word \<Rightarrow> bool" where
  "isWhiteSpace c =
     (c = 0x09 \<or> c = 0x0A \<or> c = 0x0B \<or> c = 0x0C \<or> c = 0x0D \<or> c = 0x20 \<or> c = 0xA0
      \<or> c = 0x1680 \<or> (0x2000 \<le> c \<and> c \<le> 0x200A) \<or> c = 0x2028 \<or> c = 0x2029
      \<or> c = 0x202F \<or> c = 0x205F \<or> c = 0x3000 \<or> c = 0xFEFF)"

definition trim :: "jsstring \<Rightarrow> jsstring" where
  "trim s = rev (dropWhile isWhiteSpace (rev (dropWhile isWhiteSpace s)))"

text \<open>
  \<^verbatim>\<open>String.prototype.toUpperCase\<close>, on the ASCII letters. The source applies it to the keys of
  the column object only; code units outside \<open>a\<close>..\<open>z\<close> are left as they are.
\<close>

definition upperUnit :: "16 word \<Rightarrow> 16 word" where
  "upperUnit c = (if 0x61 \<le> c \<and> c \<le> 0x7A then c - 0x20 else c)"

definition toUpperCase :: "jsstring \<Rightarrow> jsstring" where
  "toUpperCase s = map upperUnit s"

text \<open>\<^verbatim>\<open>Array.prototype.join\<close> on an array of strings.\<close>

fun join :: "jsstring \<Rightarrow> jsstring list \<Rightarrow> jsstring" where
  "join sep [] = []"
| "join sep [x] = x"
| "join sep (x # y # ys) = x @ sep @ join sep (y # ys)"

text \<open>
  \<^verbatim>\<open>Array.prototype.slice(start)\<close> with one argument: a negative \<open>start\<close> counts from the
  end, and both ends are clamped to the array.
\<close>

definition slice_js :: "int \<Rightarrow> 'a list \<Rightarrow> 'a list" where
  "slice_js start xs =
     (let len = int (length xs);
          k = (if start < 0 then max (len + start) 0 else min start len)
      in drop (nat k) xs)"

text \<open>
  The values a field of a parsed JSON row can hold, restricted to the primitive ones.
  \<open>JUndefined\<close> is what reading a missing key gives. A number is a 54-bit word read as a
  signed integer (\<open>sint\<close>): the integers from \<open>- 2^53\<close> to \<open>2^53 - 1\<close>, each of which a
  JavaScript number holds exactly and prints in full decimal digits. The other numbers
  (with a fractional part, or of greater magnitude) are not values of the model.
\<close>

datatype jsval = JUndefined | JNull | JBool bool | JNum "54 word" | JStr jsstring

fun truthy :: "jsval \<Rightarrow> bool" where
  "truthy JUndefined = False"
| "truthy JNull = False"
| "truthy (JBool b) = b"
| "truthy (JNum n) = (n \<noteq> 0)"
| "truthy (JStr s) = (s \<noteq> [])"

text \<open>The operator \<^verbatim>\<open>a || b\<close>.\<close>

definition jsOr :: "jsval \<Rightarrow> jsval \<Rightarrow> jsval" where
  "jsOr a b = (if truthy a then a else b)"

text \<open>The decimal digits of a natural number, most significant first.\<close>

definition digit :: "nat \<Rightarrow> 16 word" where
  "digit d = 0x30 + of_nat d"

fun digits :: "nat \<Rightarrow> jsstring" where
  "digits n = (if n < 10 then [digit n] else digits (n div 10) @ [digit (n mod 10)])"

declare digits.simps [simp del]

text \<open>\<^verbatim>\<open>Number.prototype.toString\<close> on the numbers of the model.\<close>

definition numToString :: "54 word \<Rightarrow> jsstring" where
  "numToString n =
     (let i = sint n in if i < 0 then 0x2D # digits (nat (- i)) else digits (nat i))"

text \<open>
  The method call \<^verbatim>\<open>val.toString()\<close>. On \<^verbatim>\<open>undefined\<close> and \<^verbatim>\<open>null\<close> it throws a
  TypeError, which is the value \<open>None\<close>.
\<close>

fun toString :: "jsval \<Rightarrow> jsstring option" where
  "toString JUndefined = None"
| "toString JNull = None"
| "toString (JBool b) = Some (if b then js ''true'' else js ''false'')"
| "toString (JNum n) = Some (numToString n)"
| "toString (JStr s) = Some s"

text \<open>\<^verbatim>\<open>val.replace(/"/g, '""')\<close>: every double quote is replaced by two.\<close>

fun replaceQuotes :: "jsstring \<Rightarrow> jsstring" where
  "replaceQuotes [] = []"
| "replaceQuotes (c # cs) =
     (if c = dquote then dquote # dquote # replaceQuotes cs else c # replaceQuotes cs)"

section \<open>Application state\<close>

text \<open>
  A row is the object of a \<^verbatim>\<open>row\<close> message: a finite map from keys to values. Reading a
  key that the object does not have gives \<^verbatim>\<open>undefined\<close>.
\<close>

type_synonym row = "jsstring \<rightharpoonup> jsval"

definition rowGet :: "row \<Rightarrow> jsstring \<Rightarrow> jsval" where
  "rowGet r k = (case r k of None \<Rightarrow> JUndefined | Some v \<Rightarrow> v)"

text \<open>
  The objects handed to \<^verbatim>\<open>socket.send\<close> (before \<^verbatim>\<open>JSON.stringify\<close>):
  \<^verbatim>\<open>{action: "start", keyword, headless, ignore_urls}\<close> and \<^verbatim>\<open>{action: "stop"}\<close>.
\<close>

datatype outbound = Start (msg_keyword: jsstring) (msg_headless: bool) (ignore_urls: "jsval list") | Stop

text \<open>What the export leaves outside the component: a CSV download or a workbook file.\<close>

datatype export_file =
    CsvFile (file_name: jsstring) (csv_content: jsstring)
  | XlsxFile (file_name: jsstring) (sheet_name: jsstring)
      (sheet_rows: "(jsstring \<times> jsval) list list") (col_widths: "nat list")

text \<open>
  The state of the component (the \<^verbatim>\<open>useState\<close> cells the handlers read and write) and the
  part of the browser the handlers act on. \<open>socket\<close> is \<open>None\<close> for \<^verbatim>\<open>null\<close>; otherwise it
  holds the messages passed to \<^verbatim>\<open>socket.send\<close> so far, oldest first. An object with string keys
  keeps its keys in insertion order, so \<open>columns\<close> is an association list. \<open>alerts\<close> are the
  calls of \<^verbatim>\<open>alert\<close>, \<open>files\<close> the files written, \<open>xlsxLoaded\<close> tells whether
  \<^verbatim>\<open>window.XLSX\<close> is there. The presentation state (\<^verbatim>\<open>viewMode\<close>, \<^verbatim>\<open>showColMenu\<close>) is left out,
  and so is what the browser does with a message once it has it (that depends on the state
  of the connection): a message counts as sent when \<^verbatim>\<open>socket.send\<close> is called with it.
\<close>

record app =
  socket :: "outbound list option"
  status :: jsstring
  logs :: "jsstring list"
  rows :: "row list"
  keyword :: jsstring
  lastKeyword :: jsstring
  headless :: bool
  liveImage :: "jsstring option"
  exportFormat :: jsstring
  columns :: "(jsstring \<times> bool) list"
  xlsxLoaded :: bool
  alerts :: "jsstring list"
  files :: "export_file list"

text \<open>The column order the specification calls canonical.\<close>

definition canonical :: "jsstring list" where
  "canonical = [js ''name'', js ''address'', js ''phone'', js ''website'', js ''rating'', js ''link'']"

definition initial :: app where
  "initial = \<lparr> socket = None, status = js ''IDLE'', logs = [], rows = [], keyword = [],
     lastKeyword = [], headless = True, liveImage = None, exportFormat = js ''xlsx'',
     columns = [(js ''name'', True), (js ''address'', True), (js ''phone'', True),
                (js ''website'', True), (js ''rating'', True), (js ''link'', True)],
     xlsxLoaded = False, alerts = [], files = [] \<rparr>"

subsection \<open>Buffers\<close>

text \<open>\<^verbatim>\<open>const addLog = (msg) => setLogs(prev => [...prev.slice(-99), msg])\<close>\<close>

definition addLog :: "jsstring \<Rightarrow> app \<Rightarrow> app" where
  "addLog msg w = w\<lparr>logs := slice_js (- 99) (logs w) @ [msg]\<rparr>"

text \<open>\<^verbatim>\<open>const addRow = (row) => setRows(prev => [...prev, row])\<close>\<close>

definition addRow :: "row \<Rightarrow> app \<Rightarrow> app" where
  "addRow r w = w\<lparr>rows := rows w @ [r]\<rparr>"

text \<open>\<^verbatim>\<open>socket.send(JSON.stringify(m))\<close> on a socket that is there.\<close>

definition send :: "outbound \<Rightarrow> app \<Rightarrow> app" where
  "send m w = w\<lparr>socket := map_option (\<lambda>out. out @ [m]) (socket w)\<rparr>"

subsection \<open>Start, resume and stop\<close>

text \<open>
  \<open>toggleScrape\<close> reads the state of the render it was created in (\<open>w\<close>) and queues its
  updates in the order of the source; the updater functions of \<open>addLog\<close> run on the queued
  state, so \<^verbatim>\<open>setLogs([])\<close> followed by \<open>addLog\<close> leaves one entry. The template
  \<^verbatim>\<open>${ignoreUrls.length}\<close> prints the length of an array, a natural number below \<open>2^32\<close>,
  in decimal digits.
\<close>

definition ignoreUrlsOf :: "row list \<Rightarrow> jsval list" where
  "ignoreUrlsOf rs =
     filter (\<lambda>l. truthy l \<and> l \<noteq> JStr (js ''N/A'')) (map (\<lambda>r. rowGet r (js ''link'')) rs)"

definition toggleScrape :: "app \<Rightarrow> app" where
  "toggleScrape w =
     (if socket w = None then w
      else if status w = js ''IDLE'' \<or> status w = js ''STOPPED'' then
        (if trim (keyword w) = [] then addLog (js ''> Error: Keyword required.'') w
         else
           let currentKey = trim (keyword w) in
           if currentKey \<noteq> lastKeyword w then
             send (Start currentKey (headless w) [])
               (addLog (js ''> Starting NEW session for: '' @ [dquote] @ currentKey @ [dquote])
                 (w\<lparr>rows := [], logs := [], liveImage := None, lastKeyword := currentKey\<rparr>))
           else
             let ignoreUrls = ignoreUrlsOf (rows w) in
             send (Start currentKey (headless w) ignoreUrls)
               (addLog (js ''> Sending '' @ digits (length ignoreUrls)
                          @ js '' existing links to skip.'')
                 (addLog (js ''> RESUMING session for: '' @ [dquote] @ currentKey @ [dquote]) w)))
      else send Stop w)"

text \<open>\<^verbatim>\<open>setSocket(ws)\<close> in the effect that opens the connection when the component mounts.\<close>

definition connect :: "app \<Rightarrow> app" where
  "connect w = w\<lparr>socket := Some []\<rparr>"

text \<open>
  The handlers of the WebSocket: \<^verbatim>\<open>onopen\<close>, \<^verbatim>\<open>onmessage\<close> (one case for each \<^verbatim>\<open>type\<close>
  the handler tests, and one for every other message) and \<^verbatim>\<open>onclose\<close>.
\<close>

datatype inbound =
  LogMsg jsstring | RowMsg row | StatusMsg jsstring | ImageMsg jsstring | OtherMsg

definition onopen :: "app \<Rightarrow> app" where
  "onopen w = addLog (js ''> Connected to Scraper Engine.'') w"

fun onmessage :: "inbound \<Rightarrow> app \<Rightarrow> app" where
  "onmessage (LogMsg p) w = addLog p w"
| "onmessage (RowMsg p) w = addRow p w"
| "onmessage (StatusMsg p) w = w\<lparr>status := p\<rparr>"
| "onmessage (ImageMsg p) w = w\<lparr>liveImage := Some p\<rparr>"
| "onmessage OtherMsg w = w"

definition onclose :: "app \<Rightarrow> app" where
  "onclose w = (addLog (js ''> Disconnected from Engine.'') w)\<lparr>status := js ''OFFLINE''\<rparr>"

section \<open>Columns and export\<close>

text \<open>
  Reading and writing a key of an object with string keys: \<^verbatim>\<open>obj[k]\<close> and \<^verbatim>\<open>obj[k] = v\<close>.
  Writing a key the object has keeps its place; a new key goes to the end.
\<close>

fun objSet :: "('k \<times> 'v) list \<Rightarrow> 'k \<Rightarrow> 'v \<Rightarrow> ('k \<times> 'v) list" where
  "objSet [] k v = [(k, v)]"
| "objSet ((k', v') # kvs) k v =
     (if k' = k then (k, v) # kvs else (k', v') # objSet kvs k v)"

text \<open>
  \<^verbatim>\<open>const toggleColumn = (col) => setColumns(prev => ({ ...prev, [col]: !prev[col] }))\<close>;
  \<^verbatim>\<open>!undefined\<close> is \<^verbatim>\<open>true\<close>.
\<close>

definition toggleColumn :: "jsstring \<Rightarrow> app \<Rightarrow> app" where
  "toggleColumn col w =
     w\<lparr>columns := objSet (columns w) col
          (case map_of (columns w) col of None \<Rightarrow> True | Some b \<Rightarrow> \<not> b)\<rparr>"

text \<open>\<^verbatim>\<open>Object.keys(columns).filter(k => columns[k])\<close>\<close>

definition activeColsOf :: "(jsstring \<times> bool) list \<Rightarrow> jsstring list" where
  "activeColsOf cols = filter (\<lambda>k. map_of cols k = Some True) (map fst cols)"

text \<open>
  \<^verbatim>\<open>new Date().toISOString().replace(/[:.]/g, "-").slice(0, 19)\<close>, where \<open>now\<close> is the
  string \<^verbatim>\<open>toISOString\<close> returned.
\<close>

definition timestampOf :: "jsstring \<Rightarrow> jsstring" where
  "timestampOf now = take 19 (map (\<lambda>c. if c = 0x3A \<or> c = 0x2E then 0x2D else c) now)"

text \<open>
  One cell of the CSV: \<^verbatim>\<open>let val = row[col] || ""; val = val.toString().replace(/"/g, '""');
  return `"${val}"`\<close>. \<open>None\<close> is the TypeError of \<open>toString\<close>.
\<close>

definition csvCell :: "jsval \<Rightarrow> jsstring option" where
  "csvCell v =
     map_option (\<lambda>val. [dquote] @ replaceQuotes val @ [dquote]) (toString (jsOr v (JStr [])))"

definition csvRow :: "jsstring list \<Rightarrow> row \<Rightarrow> jsstring option" where
  "csvRow activeCols r =
     map_option (join [comma]) (those (map (\<lambda>col. csvCell (rowGet r col)) activeCols))"

text \<open>
  One projected row of the workbook: \<^verbatim>\<open>activeCols.forEach(col => { newRow[col.toUpperCase()] =
  row[col]; })\<close> on an empty object.
\<close>

definition xlsxRow :: "jsstring list \<Rightarrow> row \<Rightarrow> (jsstring \<times> jsval) list" where
  "xlsxRow activeCols r =
     foldl (\<lambda>newRow col. objSet newRow (toUpperCase col) (rowGet r col)) [] activeCols"

text \<open>
  The text of the CSV branch: \<^verbatim>\<open>headers\<close>, \<^verbatim>\<open>csvRows\<close> and
  \<^verbatim>\<open>csvContent = [headers.join(","), ...csvRows].join("\n")\<close>.
\<close>

definition csvContentOf :: "jsstring list \<Rightarrow> row list \<Rightarrow> jsstring option" where
  "csvContentOf activeCols rs =
     (let headers = map toUpperCase activeCols in
      case those (map (csvRow activeCols) rs) of
        None \<Rightarrow> None
      | Some csvRows \<Rightarrow> Some (join [LF] (join [comma] headers # csvRows)))"

datatype error = TypeError

text \<open>
  \<open>exportData\<close>. The workbook is recorded as what the source passes to the library: the
  projected rows (\<^verbatim>\<open>json_to_sheet\<close>), the sheet name, the column widths and the file name.
  An exception that leaves the handler is \<open>Inl\<close>.
\<close>

definition exportData :: "jsstring \<Rightarrow> app \<Rightarrow> error + app" where
  "exportData now w =
     (if length (rows w) = 0 then Inr (w\<lparr>alerts := alerts w @ [js ''No data to export!'']\<rparr>)
      else
        let activeCols = activeColsOf (columns w);
            timestamp = timestampOf now
        in
        if exportFormat w = js ''xlsx'' then
          (if \<not> xlsxLoaded w then
             Inr (w\<lparr>alerts := alerts w @ [js ''Export library loading... Try again in 2s.'']\<rparr>)
           else
             let filteredRows = map (xlsxRow activeCols) (rows w);
                 wscols = map (\<lambda>_. 20) activeCols
             in Inr (w\<lparr>files := files w @
                  [XlsxFile (js ''gmaps_export_'' @ timestamp @ js ''.xlsx'') (js ''Data'')
                     filteredRows wscols]\<rparr>))
        else
          (case csvContentOf activeCols (rows w) of
             None \<Rightarrow> Inl TypeError
           | Some csvContent \<Rightarrow>
               Inr (w\<lparr>files := files w @
                 [CsvFile (js ''gmaps_export_'' @ timestamp @ js ''.csv'') csvContent]\<rparr>)))"

section \<open>Reading CSV back\<close>

text \<open>
  The program writes CSV and never reads it. The reader below is the one the round-trip
  property is stated against, a standard reader of CSV following RFC 4180: records are
  separated by a line break (LF or CR LF), fields by commas; a field is either bare (no
  double quote, comma or line break in it) or enclosed in double quotes, where two double
  quotes stand for one and commas and line breaks are ordinary characters. A line break at
  the very end does not start another record. The reader runs over the text once; it keeps
  the current field and the fields and records read so far, newest first. \<open>None\<close> is a
  text that is not CSV.
\<close>

datatype pmode = FieldStart | Bare | Quoted | QuoteSeen | CRSeen

fun csvScan ::
  "pmode \<Rightarrow> jsstring \<Rightarrow> jsstring list \<Rightarrow> jsstring list list \<Rightarrow> jsstring
     \<Rightarrow> jsstring list list option" where
  "csvScan FieldStart fld rw tbl [] =
     (if rw = [] then Some (rev tbl) else Some (rev (rev ([] # rw) # tbl)))"
| "csvScan Bare fld rw tbl [] = Some (rev (rev (rev fld # rw) # tbl))"
| "csvScan QuoteSeen fld rw tbl [] = Some (rev (rev (rev fld # rw) # tbl))"
| "csvScan Quoted fld rw tbl [] = None"
| "csvScan CRSeen fld rw tbl [] = None"
| "csvScan FieldStart fld rw tbl (c # cs) =
     (if c = dquote then csvScan Quoted [] rw tbl cs
      else if c = comma then csvScan FieldStart [] ([] # rw) tbl cs
      else if c = LF then csvScan FieldStart [] [] (rev ([] # rw) # tbl) cs
      else if c = CR then csvScan CRSeen [] rw tbl cs
      else csvScan Bare [c] rw tbl cs)"
| "csvScan Bare fld rw tbl (c # cs) =
     (if c = dquote then None
      else if c = comma then csvScan FieldStart [] (rev fld # rw) tbl cs
      else if c = LF then csvScan FieldStart [] [] (rev (rev fld # rw) # tbl) cs
      else if c = CR then csvScan CRSeen fld rw tbl cs
      else csvScan Bare (c # fld) rw tbl cs)"
| "csvScan Quoted fld rw tbl (c # cs) =
     (if c = dquote then csvScan QuoteSeen fld rw tbl cs
      else csvScan Quoted (c # fld) rw tbl cs)"
| "csvScan QuoteSeen fld rw tbl (c # cs) =
     (if c = dquote then csvScan Quoted (dquote # fld) rw tbl cs
      else if c = comma then csvScan FieldStart [] (rev fld # rw) tbl cs
      else if c = LF then csvScan FieldStart [] [] (rev (rev fld # rw) # tbl) cs
      else if c = CR then csvScan CRSeen fld rw tbl cs
      else None)"
| "csvScan CRSeen fld rw tbl (c # cs) =
     (if c = LF then csvScan FieldStart [] [] (rev (rev fld # rw) # tbl) cs else None)"

definition parseCsv :: "jsstring \<Rightarrow> jsstring list list option" where
  "parseCsv s = csvScan FieldStart [] [] [] s"

section \<open>Notions the properties are stated with\<close>

text \<open>Appending the log lines \<open>ms\<close> one after the other, first to last.\<close>

definition addLogs :: "jsstring list \<Rightarrow> app \<Rightarrow> app" where
  "addLogs ms w = foldl (\<lambda>w m. addLog m w) w ms"

text \<open>
  The text the CSV branch puts between the quotes of a cell, before the quotes in it are
  doubled: \<^verbatim>\<open>(row[col] || "").toString()\<close>. The TypeError cannot happen here, since the
  value is truthy or the empty string.
\<close>

definition cellText :: "jsval \<Rightarrow> jsstring" where
  "cellText v = (case toString (jsOr v (JStr [])) of None \<Rightarrow> [] | Some t \<Rightarrow> t)"

text \<open>
  The value of a field as text (not a function of the program): it is what a reader of CSV
  can give back, and what the round-trip property compares the text read back with. A
  string is itself, a number and a boolean are written as \<^verbatim>\<open>String(v)\<close> writes them, and
  an absent value (\<^verbatim>\<open>undefined\<close>, \<^verbatim>\<open>null\<close>) is the empty text.
\<close>

definition valueText :: "jsval \<Rightarrow> jsstring" where
  "valueText v =
     (case v of JStr s \<Rightarrow> s | JNum n \<Rightarrow> numToString n
      | JBool b \<Rightarrow> (if b then js ''true'' else js ''false'') | JUndefined \<Rightarrow> [] | JNull \<Rightarrow> [])"

text \<open>
  Reading a quoted text back: two double quotes stand for one, and a double quote on its own
  (\<open>None\<close>) does not occur in a properly quoted text.
\<close>

fun undouble :: "jsstring \<Rightarrow> jsstring option" where
  "undouble [] = Some []"
| "undouble [c] = (if c = dquote then None else Some [c])"
| "undouble (c # d # cs) =
     (if c = dquote then (if d = dquote then map_option (Cons dquote) (undouble cs) else None)
      else map_option (Cons c) (undouble (d # cs)))"

text \<open>A text that may stand in a CSV file without quotes.\<close>

definition bare :: "jsstring \<Rightarrow> bool" where
  "bare h = list_all (\<lambda>c. c \<noteq> dquote \<and> c \<noteq> comma \<and> c \<noteq> LF \<and> c \<noteq> CR) h"

text \<open>
  The states the component can be in: it is mounted, and then the handlers run one at a
  time. The column menu offers the keys of \<open>columns\<close>, so \<open>toggleColumn\<close> is called with one
  of them only.
\<close>

inductive reachable :: "app \<Rightarrow> bool" where
  r_initial: "reachable initial"
| r_connect: "reachable w \<Longrightarrow> reachable (connect w)"
| r_loaded: "reachable w \<Longrightarrow> reachable (w\<lparr>xlsxLoaded := True\<rparr>)"
| r_open: "reachable w \<Longrightarrow> reachable (onopen w)"
| r_message: "reachable w \<Longrightarrow> reachable (onmessage m w)"
| r_close: "reachable w \<Longrightarrow> reachable (onclose w)"
| r_keyword: "reachable w \<Longrightarrow> reachable (w\<lparr>keyword := k\<rparr>)"
| r_headless: "reachable w \<Longrightarrow> reachable (w\<lparr>headless := b\<rparr>)"
| r_format: "reachable w \<Longrightarrow> reachable (w\<lparr>exportFormat := f\<rparr>)"
| r_toggle: "reachable w \<Longrightarrow> reachable (toggleScrape w)"
| r_column: "reachable w \<Longrightarrow> col \<in> set (map fst (columns w)) \<Longrightarrow> reachable (toggleColumn col w)"
| r_export: "reachable w \<Longrightarrow> exportData now w = Inr w' \<Longrightarrow> reachable w'"

section \<open>Example states\<close>

text \<open>A connected component whose keyword field holds two blanks.\<close>

definition blankStart :: app where
  "blankStart = (connect initial)\<lparr>keyword := js ''  ''\<rparr>"

text \<open>The connection is open and the worker has pushed the status \<^verbatim>\<open>OFFLINE\<close>.\<close>

definition offlineState :: app where
  "offlineState = onmessage (StatusMsg (js ''OFFLINE'')) (onopen (connect initial))"

text \<open>The connection was open and has been closed.\<close>

definition closedState :: app where
  "closedState = onclose (onopen (connect initial))"

definition row_u :: "jsstring \<Rightarrow> row" where
  "row_u u = [js ''name'' \<mapsto> JStr (js ''n''), js ''link'' \<mapsto> JStr u]"

text \<open>
  Stopped after a run for \<^verbatim>\<open>gym\<close> with five rows buffered: the link \<^verbatim>\<open>u1\<close> twice,
  \<^verbatim>\<open>u2\<close> once, the sentinel once, and one row without a link.
\<close>

definition resumeState :: app where
  "resumeState = (connect initial)\<lparr>status := js ''STOPPED'', keyword := js '' gym '',
     lastKeyword := js ''gym'',
     rows := [row_u (js ''u1''), row_u (js ''N/A''), Map.empty, row_u (js ''u2''), row_u (js ''u1'')]\<rparr>"

text \<open>Stopped after a run for \<^verbatim>\<open>gym\<close>, with another keyword typed in.\<close>

definition freshState :: app where
  "freshState = (connect initial)\<lparr>status := js ''STOPPED'', keyword := js ''spa'',
     lastKeyword := js ''gym'', logs := [js ''old''], liveImage := Some (js ''png''),
     rows := [row_u (js ''u1'')]\<rparr>"

text \<open>
  Example states of the export: a row whose name is \<^verbatim>\<open>a"b,c\<close> and an empty row, with only
  the columns \<^verbatim>\<open>name\<close> and \<^verbatim>\<open>rating\<close> left enabled; and a row whose rating is the number 0,
  with only \<^verbatim>\<open>rating\<close> enabled.
\<close>

definition sampleRow :: row where
  "sampleRow = [js ''name'' \<mapsto> JStr [0x61, dquote, 0x62, comma, 0x63], js ''rating'' \<mapsto> JNum 5]"

definition exportState :: app where
  "exportState =
     toggleColumn (js ''link'') (toggleColumn (js ''website'') (toggleColumn (js ''phone'')
       (toggleColumn (js ''address'')
         ((connect initial)\<lparr>rows := [sampleRow, Map.empty], exportFormat := js ''csv''\<rparr>))))"



section \<open>The log buffer\<close>

lemma slice_js_last: "slice_js (- 99) xs = drop (length xs - 99) xs"
proof -
  have "nat (max (int (length xs) + - 99) 0) = length xs - 99" by arith
  then show ?thesis by (simp add: slice_js_def Let_def)
qed

lemma logs_addLog: "logs (addLog m w) = drop (length (logs w) - 99) (logs w) @ [m]"
  by (simp add: addLog_def slice_js_last)

lemma addLogs_snoc: "addLogs (ms @ [m]) w = addLog m (addLogs ms w)"
  by (simp add: addLogs_def)

lemma cap_step:
  assumes "ys = drop (length xs - 100) xs"
  shows "drop (length ys - 99) ys @ [m] = drop (length (xs @ [m]) - 100) (xs @ [m])"
proof -
  have idx: "length ys - 99 + (length xs - 100) = length xs - 99"
    using assms by (simp; arith)
  have "drop (length ys - 99) ys = drop (length xs - 99) xs"
    unfolding assms drop_drop using idx assms by simp
  then show ?thesis by simp
qed

lemma logs_addLogs:
  "ms \<noteq> [] \<Longrightarrow> logs (addLogs ms w) = drop (length (logs w @ ms) - 100) (logs w @ ms)"
proof (induction ms rule: rev_induct)
  case Nil
  then show ?case by simp
next
  case (snoc m ms)
  show ?case
  proof (cases "ms = []")
    case True
    then show ?thesis by (simp add: addLogs_def logs_addLog)
  next
    case False
    with snoc.IH have ih: "logs (addLogs ms w) = drop (length (logs w @ ms) - 100) (logs w @ ms)"
      by simp
    show ?thesis
      unfolding addLogs_snoc logs_addLog
      using cap_step [OF ih [unfolded length_append [symmetric]], of m] by simp
  qed
qed

lemma length_logs_addLog: "length (logs (addLog m w)) \<le> 100"
  by (simp add: logs_addLog)

text \<open>
  Claim C5. Starting from an empty log buffer, after the appends \<open>ms\<close> (any number of them,
  so also after each one on the way) the buffer holds the last \<open>min (length ms) 100\<close>
  lines of \<open>ms\<close> in the order they came: the lines dropped are the oldest. One append
  leaves at most 100 lines whatever the buffer held before.
\<close>

theorem log_buffer_cap:
  "logs (addLogs ms (w\<lparr>logs := []\<rparr>)) = drop (length ms - 100) ms
   \<and> length (logs (addLogs ms (w\<lparr>logs := []\<rparr>))) = min (length ms) 100
   \<and> length (logs (addLog m w)) \<le> 100"
proof (cases "ms = []")
  case True
  then show ?thesis by (simp add: addLogs_def length_logs_addLog)
next
  case False
  then have "logs (addLogs ms (w\<lparr>logs := []\<rparr>)) = drop (length ms - 100) ms"
    using logs_addLogs [of ms "w\<lparr>logs := []\<rparr>"] by simp
  then show ?thesis by (simp add: length_logs_addLog)
qed

section \<open>Invariants of the reachable states\<close>

lemma objSet_keys: "k \<in> fst ` set kvs \<Longrightarrow> map fst (objSet kvs k v) = map fst kvs"
  by (induction kvs) force+

lemma initial_keys: "map fst (columns initial) = canonical"
  by (simp add: initial_def canonical_def)

lemma exportData_keeps:
  "exportData now w = Inr w' \<Longrightarrow> columns w' = columns w \<and> logs w' = logs w \<and> rows w' = rows w"
  by (auto simp add: exportData_def Let_def split: if_splits option.splits)

lemma toggleScrape_columns: "columns (toggleScrape w) = columns w"
  by (simp add: toggleScrape_def Let_def send_def addLog_def)

lemma toggleScrape_logs: "length (logs w) \<le> 100 \<Longrightarrow> length (logs (toggleScrape w)) \<le> 100"
  by (simp add: toggleScrape_def Let_def send_def length_logs_addLog)

lemma reachable_invariant:
  "reachable w \<Longrightarrow> map fst (columns w) = canonical \<and> length (logs w) \<le> 100"
proof (induction rule: reachable.induct)
  case r_initial
  show ?case using initial_keys by (simp add: initial_def)
next
  case (r_message w m)
  then show ?case by (cases m) (simp_all add: addLog_def addRow_def slice_js_last)
next
  case (r_toggle w)
  then show ?case by (simp add: toggleScrape_columns toggleScrape_logs)
next
  case (r_column w col)
  from r_column.hyps(2) have "col \<in> fst ` set (columns w)" by simp
  then have "map fst (objSet (columns w) col v) = map fst (columns w)" for v
    by (rule objSet_keys)
  with r_column.IH show ?case by (simp add: toggleColumn_def)
next
  case (r_export w now w')
  then show ?case using exportData_keeps [of now w w'] by simp
qed (simp_all add: connect_def onopen_def onclose_def addLog_def slice_js_last)

section \<open>Start, resume and stop\<close>

lemma trim_blank: "trim (js ''  '') = []"
  by (simp add: trim_def js_def isWhiteSpace_def)

lemma trim_gym: "trim (js '' gym '') = js ''gym''"
  by (simp add: trim_def js_def isWhiteSpace_def)

text \<open>
  Claim C4. A start request is \<open>toggleScrape\<close> with a socket and the status \<^verbatim>\<open>IDLE\<close> or
  \<^verbatim>\<open>STOPPED\<close>. When the keyword trims to the empty string, the only change is the line
  \<^verbatim>\<open>> Error: Keyword required.\<close> appended to the log buffer: nothing is handed to the
  socket, and rows, live frame, recorded keyword and status stay as they were.
\<close>

theorem blank_keyword_rejected:
  assumes "socket w \<noteq> None"
    and "status w = js ''IDLE'' \<or> status w = js ''STOPPED''"
    and "trim (keyword w) = []"
  shows "toggleScrape w = w\<lparr>logs := slice_js (- 99) (logs w) @ [js ''> Error: Keyword required.'']\<rparr>
         \<and> socket (toggleScrape w) = socket w"
  using assms by (auto simp add: toggleScrape_def addLog_def)

theorem blank_keyword_rejected_witness:
  "socket blankStart \<noteq> None
   \<and> (status blankStart = js ''IDLE'' \<or> status blankStart = js ''STOPPED'')
   \<and> trim (keyword blankStart) = []
   \<and> toggleScrape blankStart = blankStart\<lparr>logs := [js ''> Error: Keyword required.'']\<rparr>
   \<and> socket (toggleScrape blankStart) = Some []"
  using blank_keyword_rejected [of blankStart]
  by (simp add: blankStart_def connect_def initial_def trim_blank slice_js_def)

lemma truthy_iff: "truthy l \<longleftrightarrow> l \<notin> {JUndefined, JNull, JBool False, JNum 0, JStr []}"
  by (cases l) auto

lemma set_ignoreUrlsOf:
  "set (ignoreUrlsOf rs) =
     (\<lambda>r. rowGet r (js ''link'')) ` set rs
       - {JUndefined, JNull, JBool False, JNum 0, JStr [], JStr (js ''N/A'')}"
  unfolding ignoreUrlsOf_def by (auto simp add: truthy_iff)

text \<open>
  Claim C1. A start request whose trimmed keyword is not empty and equals the recorded
  keyword leaves the row buffer as it is and hands one start message to the socket. Its
  \<^verbatim>\<open>ignore_urls\<close> are the \<^verbatim>\<open>link\<close> values of the buffered rows in buffer order, without
  the falsy ones (a missing link, \<^verbatim>\<open>null\<close>, the empty string, \<^verbatim>\<open>0\<close>, \<^verbatim>\<open>false\<close>) and
  without \<^verbatim>\<open>"N/A"\<close>; as a set they are exactly the distinct link values left after that
  exclusion.
\<close>

theorem resume_keeps_rows:
  assumes "socket w = Some out"
    and "status w = js ''IDLE'' \<or> status w = js ''STOPPED''"
    and "trim (keyword w) \<noteq> []"
    and "trim (keyword w) = lastKeyword w"
  shows "rows (toggleScrape w) = rows w
         \<and> socket (toggleScrape w) =
             Some (out @ [Start (trim (keyword w)) (headless w) (ignoreUrlsOf (rows w))])
         \<and> set (ignoreUrlsOf (rows w)) =
             (\<lambda>r. rowGet r (js ''link'')) ` set (rows w)
               - {JUndefined, JNull, JBool False, JNum 0, JStr [], JStr (js ''N/A'')}"
proof -
  have "toggleScrape w =
          send (Start (trim (keyword w)) (headless w) (ignoreUrlsOf (rows w)))
            (addLog (js ''> Sending '' @ digits (length (ignoreUrlsOf (rows w)))
                       @ js '' existing links to skip.'')
              (addLog (js ''> RESUMING session for: '' @ [dquote] @ trim (keyword w) @ [dquote]) w))"
    using assms by (auto simp add: toggleScrape_def Let_def)
  then show ?thesis
    using assms(1) by (simp add: send_def addLog_def set_ignoreUrlsOf)
qed

theorem resume_keeps_rows_witness:
  "socket resumeState = Some []
   \<and> (status resumeState = js ''IDLE'' \<or> status resumeState = js ''STOPPED'')
   \<and> trim (keyword resumeState) \<noteq> []
   \<and> trim (keyword resumeState) = lastKeyword resumeState
   \<and> rows (toggleScrape resumeState) = rows resumeState
   \<and> socket (toggleScrape resumeState) =
       Some [Start (js ''gym'') True [JStr (js ''u1''), JStr (js ''u2''), JStr (js ''u1'')]]"
proof -
  have h: "socket resumeState = Some []"
    "status resumeState = js ''IDLE'' \<or> status resumeState = js ''STOPPED''"
    "trim (keyword resumeState) \<noteq> []"
    "trim (keyword resumeState) = lastKeyword resumeState"
    by (simp_all add: resumeState_def connect_def initial_def trim_gym) (simp add: js_def)
  have u: "ignoreUrlsOf (rows resumeState) = [JStr (js ''u1''), JStr (js ''u2''), JStr (js ''u1'')]"
    by (simp add: resumeState_def ignoreUrlsOf_def rowGet_def row_u_def js_def)
  have k: "trim (keyword resumeState) = js ''gym''" "headless resumeState = True"
    by (simp_all add: resumeState_def trim_gym connect_def initial_def)
  show ?thesis
    using resume_keeps_rows [OF h] h by (simp add: u k)
qed

text \<open>
  Claim C2. A start request whose trimmed keyword is not empty and differs from the
  recorded keyword (which is the empty string before the first start) hands the start
  message, with an empty \<^verbatim>\<open>ignore_urls\<close>, to the socket in a state where the rows and
  the live frame are cleared, the trimmed keyword is recorded, and the log buffer has lost
  all its lines and holds only the line announcing the new session.
\<close>

theorem new_session_clears:
  assumes "socket w = Some out"
    and "status w = js ''IDLE'' \<or> status w = js ''STOPPED''"
    and "trim (keyword w) \<noteq> []"
    and "trim (keyword w) \<noteq> lastKeyword w"
  shows "toggleScrape w =
           send (Start (trim (keyword w)) (headless w) [])
             (w\<lparr>rows := [],
                logs := [js ''> Starting NEW session for: '' @ [dquote] @ trim (keyword w) @ [dquote]],
                liveImage := None, lastKeyword := trim (keyword w)\<rparr>)
         \<and> socket (toggleScrape w) = Some (out @ [Start (trim (keyword w)) (headless w) []])
         \<and> rows (toggleScrape w) = [] \<and> liveImage (toggleScrape w) = None
         \<and> lastKeyword (toggleScrape w) = trim (keyword w)"
  using assms by (auto simp add: toggleScrape_def Let_def send_def addLog_def slice_js_def)

theorem new_session_clears_witness:
  "socket freshState = Some []
   \<and> (status freshState = js ''IDLE'' \<or> status freshState = js ''STOPPED'')
   \<and> trim (keyword freshState) \<noteq> []
   \<and> trim (keyword freshState) \<noteq> lastKeyword freshState
   \<and> socket (toggleScrape freshState) = Some [Start (js ''spa'') True []]
   \<and> rows (toggleScrape freshState) = [] \<and> liveImage (toggleScrape freshState) = None
   \<and> lastKeyword (toggleScrape freshState) = js ''spa''"
proof -
  have t: "trim (keyword freshState) = js ''spa''"
    by (simp add: freshState_def trim_def js_def isWhiteSpace_def)
  have h: "socket freshState = Some []"
    "status freshState = js ''IDLE'' \<or> status freshState = js ''STOPPED''"
    "trim (keyword freshState) \<noteq> []"
    "trim (keyword freshState) \<noteq> lastKeyword freshState"
    unfolding t by (simp_all add: freshState_def connect_def initial_def js_def)
  have k: "headless freshState = True"
    by (simp add: freshState_def connect_def initial_def)
  show ?thesis
    using new_session_clears [OF h] h by (simp add: t k send_def)
qed

lemma toggleScrape_stop_branch:
  assumes "socket w = Some out" and "status w \<noteq> js ''IDLE''" and "status w \<noteq> js ''STOPPED''"
  shows "toggleScrape w = w\<lparr>socket := Some (out @ [Stop])\<rparr>"
  using assms by (simp add: toggleScrape_def send_def)

text \<open>
  Claim C3. The source has one handler for the button. Its last branch, commented as the
  STOP button being pressed, is taken for every status other than \<^verbatim>\<open>IDLE\<close> and
  \<^verbatim>\<open>STOPPED\<close>, while the button is drawn as STOP for \<^verbatim>\<open>RUNNING\<close> only. With the status
  \<^verbatim>\<open>OFFLINE\<close>, pushed by the worker on an open connection or set when the connection
  closes, the handler passes a stop message to \<^verbatim>\<open>socket.send\<close>.
\<close>

theorem stop_sent_while_offline:
  "status offlineState = js ''OFFLINE'' \<and> socket offlineState = Some []
   \<and> toggleScrape offlineState = offlineState\<lparr>socket := Some [Stop]\<rparr>
   \<and> status closedState = js ''OFFLINE'' \<and> socket closedState = Some []
   \<and> toggleScrape closedState = closedState\<lparr>socket := Some [Stop]\<rparr>"
proof -
  have s: "status offlineState = js ''OFFLINE''" "socket offlineState = Some []"
    "status closedState = js ''OFFLINE''" "socket closedState = Some []"
    by (simp_all add: offlineState_def closedState_def onclose_def onopen_def connect_def
        addLog_def)
  have n: "js ''OFFLINE'' \<noteq> js ''IDLE''" "js ''OFFLINE'' \<noteq> js ''STOPPED''"
    by (simp_all add: js_def)
  show ?thesis
    using toggleScrape_stop_branch [OF s(2)] toggleScrape_stop_branch [OF s(4)] s n
    by simp
qed

section \<open>Export\<close>

lemma units_distinct [simp]:
  "LF \<noteq> dquote" "LF \<noteq> comma" "comma \<noteq> dquote" "CR \<noteq> dquote" "CR \<noteq> comma" "CR \<noteq> LF"
  "dquote \<noteq> LF" "comma \<noteq> LF" "dquote \<noteq> comma"
  by (simp_all add: LF_def dquote_def comma_def CR_def)

lemma toString_or: "toString (jsOr v (JStr [])) = Some (cellText v)"
  by (cases v) (auto simp add: jsOr_def cellText_def)

lemma csvCell_eq: "csvCell v = Some (dquote # replaceQuotes (cellText v) @ [dquote])"
  by (simp add: csvCell_def toString_or)

lemma those_map_Some: "those (map (\<lambda>x. Some (f x)) xs) = Some (map f xs)"
  by (induction xs) simp_all

lemma csvRow_eq:
  "csvRow cols r =
     Some (join [comma] (map (\<lambda>c. dquote # replaceQuotes (cellText (rowGet r c)) @ [dquote]) cols))"
  by (simp add: csvRow_def csvCell_eq those_map_Some)

lemma csvContentOf_eq:
  "csvContentOf cols rs =
     Some (join [LF] (join [comma] (map toUpperCase cols)
       # map (\<lambda>r. join [comma]
            (map (\<lambda>c. dquote # replaceQuotes (cellText (rowGet r c)) @ [dquote]) cols)) rs))"
proof -
  have "csvRow cols = (\<lambda>r. Some (join [comma]
          (map (\<lambda>c. dquote # replaceQuotes (cellText (rowGet r c)) @ [dquote]) cols)))"
    by (rule ext) (rule csvRow_eq)
  then show ?thesis by (simp add: csvContentOf_def those_map_Some)
qed

lemma scan_quoted_body:
  "csvScan Quoted fld rw tbl (replaceQuotes s @ dquote # rest)
     = csvScan QuoteSeen (rev s @ fld) rw tbl rest"
  by (induction s arbitrary: fld) simp_all

lemma scan_quoted_field:
  "csvScan FieldStart f0 rw tbl (dquote # replaceQuotes s @ dquote # rest)
     = csvScan QuoteSeen (rev s) rw tbl rest"
  using scan_quoted_body [of "[]" rw tbl s rest] by simp

lemma scan_quoted_row:
  "csvScan FieldStart f0 rw tbl
      (join [comma] (map (\<lambda>t. dquote # replaceQuotes t @ [dquote]) (t # ts)) @ rest)
     = csvScan QuoteSeen (rev (last (t # ts))) (rev (butlast (t # ts)) @ rw) tbl rest"
proof (induction ts arbitrary: t rw f0)
  case Nil
  show ?case using scan_quoted_field [of f0 rw tbl t rest] by simp
next
  case (Cons u us)
  have "csvScan FieldStart f0 rw tbl
      (join [comma] (map (\<lambda>t. dquote # replaceQuotes t @ [dquote]) (t # u # us)) @ rest)
    = csvScan FieldStart f0 rw tbl (dquote # replaceQuotes t @ dquote # comma #
        (join [comma] (map (\<lambda>t. dquote # replaceQuotes t @ [dquote]) (u # us)) @ rest))"
    by simp
  also have "\<dots> = csvScan FieldStart [] (t # rw) tbl
        (join [comma] (map (\<lambda>t. dquote # replaceQuotes t @ [dquote]) (u # us)) @ rest)"
    unfolding scan_quoted_field by simp
  also have "\<dots> = csvScan QuoteSeen (rev (last (u # us))) (rev (butlast (u # us)) @ t # rw) tbl rest"
    by (rule Cons.IH)
  finally show ?case by simp
qed


lemma scan_record_end:
  "csvScan QuoteSeen (rev (last (t # ts))) (rev (butlast (t # ts)) @ []) tbl (LF # rest)
     = csvScan FieldStart [] [] ((t # ts) # tbl) rest"
  "csvScan QuoteSeen (rev (last (t # ts))) (rev (butlast (t # ts)) @ []) tbl []
     = Some (rev ((t # ts) # tbl))"
proof -
  have "rev (rev (rev (last (t # ts))) # rev (butlast (t # ts)) @ []) = t # ts"
    using append_butlast_last_id [of "t # ts"] by simp
  then show "csvScan QuoteSeen (rev (last (t # ts))) (rev (butlast (t # ts)) @ []) tbl (LF # rest)
     = csvScan FieldStart [] [] ((t # ts) # tbl) rest"
    "csvScan QuoteSeen (rev (last (t # ts))) (rev (butlast (t # ts)) @ []) tbl []
     = Some (rev ((t # ts) # tbl))"
    by simp_all
qed

lemma scan_quoted_rows:
  assumes "rs \<noteq> []" and "list_all (\<lambda>r. r \<noteq> []) rs"
  shows "csvScan FieldStart f0 [] tbl
       (join [LF] (map (\<lambda>r. join [comma] (map (\<lambda>t. dquote # replaceQuotes t @ [dquote]) r)) rs))
     = Some (rev tbl @ rs)"
  using assms
proof (induction rs arbitrary: tbl f0)
  case Nil
  then show ?case by simp
next
  case (Cons r rs)
  from Cons.prems obtain t ts where r: "r = t # ts" by (cases r) auto
  show ?case
  proof (cases rs)
    case Nil
    have "csvScan FieldStart f0 [] tbl
        (join [comma] (map (\<lambda>t. dquote # replaceQuotes t @ [dquote]) (t # ts)) @ [])
      = Some (rev ((t # ts) # tbl))"
      unfolding scan_quoted_row scan_record_end ..
    then show ?thesis using Nil r by simp
  next
    case (Cons r' rs')
    have "csvScan FieldStart f0 [] tbl
        (join [comma] (map (\<lambda>t. dquote # replaceQuotes t @ [dquote]) (t # ts)) @ LF #
          join [LF] (map (\<lambda>r. join [comma] (map (\<lambda>t. dquote # replaceQuotes t @ [dquote]) r)) rs))
      = csvScan FieldStart [] [] ((t # ts) # tbl)
          (join [LF] (map (\<lambda>r. join [comma] (map (\<lambda>t. dquote # replaceQuotes t @ [dquote]) r)) rs))"
      unfolding scan_quoted_row scan_record_end ..
    also have "\<dots> = Some (rev ((t # ts) # tbl) @ rs)"
      using Cons.IH [of "[]" "(t # ts) # tbl"] Cons.prems Cons by simp
    finally show ?thesis using Cons r by simp
  qed
qed

lemma scan_bare_body:
  "bare h \<Longrightarrow> csvScan Bare fld rw tbl (h @ rest) = csvScan Bare (rev h @ fld) rw tbl rest"
  by (induction h arbitrary: fld) (simp_all add: bare_def)

lemma scan_bare_field:
  assumes "bare h"
  shows "csvScan FieldStart f0 rw tbl (h @ comma # rest) = csvScan FieldStart [] (h # rw) tbl rest"
    and "csvScan FieldStart f0 rw tbl (h @ LF # rest) = csvScan FieldStart [] [] (rev (h # rw) # tbl) rest"
proof -
  show "csvScan FieldStart f0 rw tbl (h @ comma # rest) = csvScan FieldStart [] (h # rw) tbl rest"
  proof (cases h)
    case Nil
    then show ?thesis by simp
  next
    case (Cons c cs)
    with assms have c: "c \<noteq> dquote" "c \<noteq> comma" "c \<noteq> LF" "c \<noteq> CR" and cs: "bare cs"
      by (simp_all add: bare_def)
    show ?thesis using c scan_bare_body [OF cs, of "[c]" rw tbl "comma # rest"] by (simp add: Cons)
  qed
  show "csvScan FieldStart f0 rw tbl (h @ LF # rest) = csvScan FieldStart [] [] (rev (h # rw) # tbl) rest"
  proof (cases h)
    case Nil
    then show ?thesis by simp
  next
    case (Cons c cs)
    with assms have c: "c \<noteq> dquote" "c \<noteq> comma" "c \<noteq> LF" "c \<noteq> CR" and cs: "bare cs"
      by (simp_all add: bare_def)
    show ?thesis using c scan_bare_body [OF cs, of "[c]" rw tbl "LF # rest"] by (simp add: Cons)
  qed
qed

lemma scan_header:
  assumes "list_all bare (h # hs)"
  shows "csvScan FieldStart f0 rw tbl (join [comma] (h # hs) @ LF # rest)
           = csvScan FieldStart [] [] ((rev rw @ h # hs) # tbl) rest"
  using assms
proof (induction hs arbitrary: h rw f0)
  case Nil
  then show ?case using scan_bare_field(2) [of h f0 rw tbl rest] by simp
next
  case (Cons g gs)
  from Cons.prems have h: "bare h" and rest: "list_all bare (g # gs)" by simp_all
  have "csvScan FieldStart f0 rw tbl (join [comma] (h # g # gs) @ LF # rest)
      = csvScan FieldStart f0 rw tbl (h @ comma # (join [comma] (g # gs) @ LF # rest))"
    by simp
  also have "\<dots> = csvScan FieldStart [] (h # rw) tbl (join [comma] (g # gs) @ LF # rest)"
    by (rule scan_bare_field(1) [OF h])
  also have "\<dots> = csvScan FieldStart [] [] ((rev (h # rw) @ g # gs) # tbl) rest"
    by (rule Cons.IH [OF rest])
  finally show ?case by simp
qed

lemma parse_table:
  assumes "list_all bare (h # hs)" and "rs \<noteq> []" and "list_all (\<lambda>r. r \<noteq> []) rs"
  shows "parseCsv (join [LF] (join [comma] (h # hs)
            # map (\<lambda>r. join [comma] (map (\<lambda>t. dquote # replaceQuotes t @ [dquote]) r)) rs))
         = Some ((h # hs) # rs)"
proof -
  obtain r rs' where rs: "rs = r # rs'" using assms(2) by (cases rs) auto
  have "join [LF] (join [comma] (h # hs)
            # map (\<lambda>r. join [comma] (map (\<lambda>t. dquote # replaceQuotes t @ [dquote]) r)) rs)
      = join [comma] (h # hs) @ LF #
          join [LF] (map (\<lambda>r. join [comma] (map (\<lambda>t. dquote # replaceQuotes t @ [dquote]) r)) rs)"
    by (simp add: rs)
  then show ?thesis
    unfolding parseCsv_def
    using scan_header [OF assms(1), of "[]" "[]" "[]"] scan_quoted_rows [OF assms(2,3), of "[]" "[h # hs]"]
    by simp
qed


lemma cellText_cases: "cellText v = (if truthy v then valueText v else [])"
  by (cases v) (auto simp add: cellText_def jsOr_def valueText_def)

lemma undouble_plain: "c \<noteq> dquote \<Longrightarrow> undouble (c # xs) = map_option (Cons c) (undouble xs)"
  by (cases xs) simp_all

lemma undouble_replaceQuotes: "undouble (replaceQuotes t) = Some t"
  by (induction t) (simp_all add: undouble_plain)

lemma exportData_csv:
  assumes "rows w \<noteq> []" and "exportFormat w \<noteq> js ''xlsx''"
  shows "exportData now w =
     Inr (w\<lparr>files := files w @
       [CsvFile (js ''gmaps_export_'' @ timestampOf now @ js ''.csv'')
         (join [LF] (join [comma] (map toUpperCase (activeColsOf (columns w)))
            # map (\<lambda>r. join [comma]
                (map (\<lambda>c. dquote # replaceQuotes (cellText (rowGet r c)) @ [dquote])
                   (activeColsOf (columns w)))) (rows w)))]\<rparr>)"
  using assms by (simp add: exportData_def Let_def csvContentOf_eq)

lemma objSet_fresh: "k \<notin> fst ` set kvs \<Longrightarrow> objSet kvs k v = kvs @ [(k, v)]"
  by (induction kvs) auto

lemma foldl_objSet:
  "distinct (map f cs) \<Longrightarrow> f ` set cs \<inter> fst ` set acc = {} \<Longrightarrow>
   foldl (\<lambda>newRow col. objSet newRow (f col) (g col)) acc cs = acc @ map (\<lambda>c. (f c, g c)) cs"
proof (induction cs arbitrary: acc)
  case Nil
  then show ?case by simp
next
  case (Cons c cs)
  from Cons.prems have fresh: "f c \<notin> fst ` set acc" by auto
  have "f ` set cs \<inter> fst ` set (acc @ [(f c, g c)]) = {}"
    using Cons.prems by auto
  with Cons.IH [of "acc @ [(f c, g c)]"] Cons.prems show ?case
    by (simp add: objSet_fresh [OF fresh])
qed

lemma xlsxRow_eq:
  "distinct (map toUpperCase cols) \<Longrightarrow> xlsxRow cols r = map (\<lambda>c. (toUpperCase c, rowGet r c)) cols"
  unfolding xlsxRow_def using foldl_objSet [of toUpperCase cols "[]" "rowGet r"] by simp

lemma upper_canonical:
  "map toUpperCase canonical =
     [js ''NAME'', js ''ADDRESS'', js ''PHONE'', js ''WEBSITE'', js ''RATING'', js ''LINK'']"
  by (simp add: canonical_def toUpperCase_def upperUnit_def js_def)

lemma distinct_upper_canonical: "distinct (map toUpperCase canonical)"
  unfolding upper_canonical by (simp add: js_def)

lemma bare_upper_canonical: "list_all bare (map toUpperCase canonical)"
  unfolding upper_canonical by (simp add: bare_def js_def dquote_def comma_def LF_def CR_def)

lemma activeColsOf_canonical:
  "map fst cols = canonical \<Longrightarrow>
     activeColsOf cols = filter (\<lambda>k. map_of cols k = Some True) canonical"
  by (simp add: activeColsOf_def)


text \<open>
  Claim C9. With no rows buffered, \<open>exportData\<close> in either format only calls
  \<^verbatim>\<open>alert("No data to export!")\<close> and returns: no exception leaves the handler, no file is
  written, and the state of the component is what it was.
\<close>

theorem export_empty_rejected:
  assumes "rows w = []"
  shows "exportData now (w\<lparr>exportFormat := fmt\<rparr>) =
           Inr (w\<lparr>exportFormat := fmt, alerts := alerts w @ [js ''No data to export!'']\<rparr>)"
  using assms by (simp add: exportData_def)

theorem export_empty_rejected_witness:
  "rows initial = []
   \<and> exportData [] (initial\<lparr>exportFormat := js ''csv''\<rparr>) =
       Inr (initial\<lparr>exportFormat := js ''csv'', alerts := [js ''No data to export!'']\<rparr>)
   \<and> exportData [] (initial\<lparr>exportFormat := js ''xlsx''\<rparr>) =
       Inr (initial\<lparr>exportFormat := js ''xlsx'', alerts := [js ''No data to export!'']\<rparr>)"
proof -
  have h: "rows initial = []" by (simp add: initial_def)
  have a: "alerts initial = []" by (simp add: initial_def)
  show ?thesis
    using export_empty_rejected [OF h, of "[]" "js ''csv''"]
      export_empty_rejected [OF h, of "[]" "js ''xlsx''"] h
    by (simp add: a)
qed



text \<open>
  Claim C7. With rows buffered and a format other than \<^verbatim>\<open>xlsx\<close>, the export writes one CSV
  file: the comma-joined header row, then for each row, in order, its cells joined by
  commas, the lines joined by line feeds. Each cell is a double quote, the text of the field
  with every double quote doubled, and a double quote; no cell raises the TypeError, and
  undoing the doubling gives the text of the field back.
\<close>

theorem csv_fields_quoted:
  assumes "rows w \<noteq> []" and "exportFormat w \<noteq> js ''xlsx''"
  shows "exportData now w =
     Inr (w\<lparr>files := files w @
       [CsvFile (js ''gmaps_export_'' @ timestampOf now @ js ''.csv'')
         (join [LF] (join [comma] (map toUpperCase (activeColsOf (columns w)))
            # map (\<lambda>r. join [comma]
                (map (\<lambda>c. dquote # replaceQuotes (cellText (rowGet r c)) @ [dquote])
                   (activeColsOf (columns w)))) (rows w)))]\<rparr>)
     \<and> (\<forall>v. csvCell v = Some (dquote # replaceQuotes (cellText v) @ [dquote]))
     \<and> (\<forall>t. undouble (replaceQuotes t) = Some t)"
  using exportData_csv [OF assms] by (simp add: csvCell_eq undouble_replaceQuotes)

lemma exportState_facts:
  "rows exportState = [sampleRow, Map.empty]"
  "exportFormat exportState = js ''csv''"
  "files exportState = []"
  "columns exportState = [(js ''name'', True), (js ''address'', False), (js ''phone'', False),
                (js ''website'', False), (js ''rating'', True), (js ''link'', False)]"
  by (simp_all add: exportState_def toggleColumn_def connect_def initial_def js_def)

lemma exportState_active: "activeColsOf (columns exportState) = [js ''name'', js ''rating'']"
  by (simp add: exportState_facts activeColsOf_def js_def)

lemma sample_cells:
  "cellText (rowGet sampleRow (js ''name'')) = [0x61, dquote, 0x62, comma, 0x63]"
  "cellText (rowGet sampleRow (js ''rating'')) = js ''5''"
  "cellText (rowGet Map.empty k) = []"
  by (simp_all add: sampleRow_def rowGet_def cellText_def jsOr_def js_def numToString_def
      digits.simps digit_def)


lemma exportState_content:
  "join [LF] (join [comma] (map toUpperCase (activeColsOf (columns exportState)))
            # map (\<lambda>r. join [comma]
                (map (\<lambda>c. dquote # replaceQuotes (cellText (rowGet r c)) @ [dquote])
                   (activeColsOf (columns exportState)))) (rows exportState))
   = js ''NAME,RATING'' @ [LF]
             @ [dquote, 0x61, dquote, dquote, 0x62, comma, 0x63, dquote, comma, dquote, 0x35, dquote]
             @ [LF] @ [dquote, dquote, comma, dquote, dquote]"
  unfolding exportState_active exportState_facts(1)
  by (simp add: sample_cells) (simp add: toUpperCase_def upperUnit_def js_def comma_def dquote_def)

theorem csv_fields_quoted_witness:
  "rows exportState \<noteq> [] \<and> exportFormat exportState \<noteq> js ''xlsx''
   \<and> exportData [] exportState =
       Inr (exportState\<lparr>files :=
         [CsvFile (js ''gmaps_export_.csv'')
           (js ''NAME,RATING'' @ [LF]
             @ [dquote, 0x61, dquote, dquote, 0x62, comma, 0x63, dquote, comma, dquote, 0x35, dquote]
             @ [LF] @ [dquote, dquote, comma, dquote, dquote])]\<rparr>)"
proof -
  have h: "rows exportState \<noteq> []" "exportFormat exportState \<noteq> js ''xlsx''"
    by (simp_all add: exportState_facts js_def)
  have n: "js ''gmaps_export_'' @ timestampOf [] @ js ''.csv'' = js ''gmaps_export_.csv''"
    by (simp add: timestampOf_def js_def)
  have "exportData [] exportState =
       Inr (exportState\<lparr>files :=
         [CsvFile (js ''gmaps_export_.csv'')
           (js ''NAME,RATING'' @ [LF]
             @ [dquote, 0x61, dquote, dquote, 0x62, comma, 0x63, dquote, comma, dquote, 0x35, dquote]
             @ [LF] @ [dquote, dquote, comma, dquote, dquote])]\<rparr>)"
    using csv_fields_quoted [OF h, of "[]"]
    unfolding exportState_content n exportState_facts(3) by simp
  with h show ?thesis by simp
qed


lemma filter_upper_member:
  "filter (\<lambda>k. toUpperCase k \<in> set (map toUpperCase (filter P canonical))) canonical
     = filter P canonical"
proof (rule filter_cong [OF refl])
  fix k assume k: "k \<in> set canonical"
  have inj: "inj_on toUpperCase (set canonical)"
    using distinct_upper_canonical by (simp add: distinct_map)
  show "(toUpperCase k \<in> set (map toUpperCase (filter P canonical))) = P k"
  proof
    assume "toUpperCase k \<in> set (map toUpperCase (filter P canonical))"
    then obtain k' where k': "k' \<in> set canonical" "P k'" "toUpperCase k' = toUpperCase k"
      by auto
    with inj k have "k' = k" by (auto dest: inj_onD)
    with k' show "P k" by simp
  next
    assume "P k"
    with k show "toUpperCase k \<in> set (map toUpperCase (filter P canonical))" by auto
  qed
qed

lemma distinct_upper_filter: "distinct (map toUpperCase (filter P canonical))"
  using distinct_upper_canonical by (rule distinct_map_filter)

lemma csv_not_xlsx: "js ''csv'' \<noteq> js ''xlsx''"
  by (simp add: js_def)

text \<open>
  Claim C6. For buffered rows and a column object with the six keys in their order (any
  six truth values), the CSV file and the workbook both hold exactly the columns whose
  value is \<^verbatim>\<open>true\<close>, in the canonical order, under the upper-cased key: the headers are
  the upper-cased names of the enabled columns, every row is projected to the same
  columns, and a canonical column has its header in the output exactly when it is enabled.
\<close>

theorem export_projects_enabled_columns:
  assumes "rows w \<noteq> []" and "map fst (columns w) = canonical"
  shows "let act = filter (\<lambda>k. map_of (columns w) k = Some True) canonical;
             headers = map toUpperCase act
         in exportData now (w\<lparr>exportFormat := js ''csv''\<rparr>) =
              Inr (w\<lparr>exportFormat := js ''csv'', files := files w @
                [CsvFile (js ''gmaps_export_'' @ timestampOf now @ js ''.csv'')
                  (join [LF] (join [comma] headers
                     # map (\<lambda>r. join [comma]
                         (map (\<lambda>c. dquote # replaceQuotes (cellText (rowGet r c)) @ [dquote]) act))
                       (rows w)))]\<rparr>)
          \<and> exportData now (w\<lparr>exportFormat := js ''xlsx'', xlsxLoaded := True\<rparr>) =
              Inr (w\<lparr>exportFormat := js ''xlsx'', xlsxLoaded := True, files := files w @
                [XlsxFile (js ''gmaps_export_'' @ timestampOf now @ js ''.xlsx'') (js ''Data'')
                  (map (\<lambda>r. map (\<lambda>c. (toUpperCase c, rowGet r c)) act) (rows w))
                  (replicate (length act) 20)]\<rparr>)
          \<and> filter (\<lambda>k. toUpperCase k \<in> set headers) canonical = act
          \<and> map toUpperCase canonical =
              [js ''NAME'', js ''ADDRESS'', js ''PHONE'', js ''WEBSITE'', js ''RATING'', js ''LINK'']"
proof -
  have act: "activeColsOf (columns w) = filter (\<lambda>k. map_of (columns w) k = Some True) canonical"
    using assms(2) by (rule activeColsOf_canonical)
  have csv: "exportData now (w\<lparr>exportFormat := js ''csv''\<rparr>) =
      Inr (w\<lparr>exportFormat := js ''csv'', files := files w @
        [CsvFile (js ''gmaps_export_'' @ timestampOf now @ js ''.csv'')
          (join [LF] (join [comma] (map toUpperCase (activeColsOf (columns w)))
             # map (\<lambda>r. join [comma]
                 (map (\<lambda>c. dquote # replaceQuotes (cellText (rowGet r c)) @ [dquote])
                    (activeColsOf (columns w)))) (rows w)))]\<rparr>)"
    using exportData_csv [of "w\<lparr>exportFormat := js ''csv''\<rparr>" now] assms(1) csv_not_xlsx
    by simp
  have xr: "xlsxRow (activeColsOf (columns w)) =
      (\<lambda>r. map (\<lambda>c. (toUpperCase c, rowGet r c)) (activeColsOf (columns w)))"
    unfolding act by (rule ext) (rule xlsxRow_eq [OF distinct_upper_filter])
  have xlsx: "exportData now (w\<lparr>exportFormat := js ''xlsx'', xlsxLoaded := True\<rparr>) =
      Inr (w\<lparr>exportFormat := js ''xlsx'', xlsxLoaded := True, files := files w @
        [XlsxFile (js ''gmaps_export_'' @ timestampOf now @ js ''.xlsx'') (js ''Data'')
          (map (\<lambda>r. map (\<lambda>c. (toUpperCase c, rowGet r c)) (activeColsOf (columns w))) (rows w))
          (replicate (length (activeColsOf (columns w))) 20)]\<rparr>)"
    using assms(1) by (simp add: exportData_def Let_def xr map_replicate_const)
  show ?thesis
    unfolding Let_def
    using csv xlsx filter_upper_member upper_canonical by (simp add: act)
qed

lemma exportState_keys: "map fst (columns exportState) = canonical"
  by (simp add: exportState_facts canonical_def)

lemma exportState_filter:
  "filter (\<lambda>k. map_of (columns exportState) k = Some True) canonical = [js ''name'', js ''rating'']"
  using activeColsOf_canonical [OF exportState_keys] exportState_active by simp

theorem export_projects_enabled_columns_witness:
  "rows exportState \<noteq> [] \<and> map fst (columns exportState) = canonical
   \<and> exportData [] (exportState\<lparr>exportFormat := js ''csv''\<rparr>) =
       Inr (exportState\<lparr>exportFormat := js ''csv'', files :=
         [CsvFile (js ''gmaps_export_.csv'')
           (js ''NAME,RATING'' @ [LF]
             @ [dquote, 0x61, dquote, dquote, 0x62, comma, 0x63, dquote, comma, dquote, 0x35, dquote]
             @ [LF] @ [dquote, dquote, comma, dquote, dquote])]\<rparr>)
   \<and> exportData [] (exportState\<lparr>exportFormat := js ''xlsx'', xlsxLoaded := True\<rparr>) =
       Inr (exportState\<lparr>exportFormat := js ''xlsx'', xlsxLoaded := True, files :=
         [XlsxFile (js ''gmaps_export_.xlsx'') (js ''Data'')
           [[(js ''NAME'', JStr [0x61, dquote, 0x62, comma, 0x63]), (js ''RATING'', JNum 5)],
            [(js ''NAME'', JUndefined), (js ''RATING'', JUndefined)]]
           [20, 20]]\<rparr>)"
proof -
  have h: "rows exportState \<noteq> []" "map fst (columns exportState) = canonical"
    by (simp add: exportState_facts(1)) (rule exportState_keys)
  have n: "js ''gmaps_export_'' @ timestampOf [] @ js ''.csv'' = js ''gmaps_export_.csv''"
    "js ''gmaps_export_'' @ timestampOf [] @ js ''.xlsx'' = js ''gmaps_export_.xlsx''"
    by (simp_all add: timestampOf_def js_def)
  have c: "join [LF] (join [comma] (map toUpperCase [js ''name'', js ''rating''])
            # map (\<lambda>r. join [comma]
                (map (\<lambda>c. dquote # replaceQuotes (cellText (rowGet r c)) @ [dquote])
                   [js ''name'', js ''rating''])) (rows exportState))
      = js ''NAME,RATING'' @ [LF]
             @ [dquote, 0x61, dquote, dquote, 0x62, comma, 0x63, dquote, comma, dquote, 0x35, dquote]
             @ [LF] @ [dquote, dquote, comma, dquote, dquote]"
    using exportState_content unfolding exportState_active .
  have x: "map (\<lambda>r. map (\<lambda>c. (toUpperCase c, rowGet r c)) [js ''name'', js ''rating''])
             (rows exportState)
      = [[(js ''NAME'', JStr [0x61, dquote, 0x62, comma, 0x63]), (js ''RATING'', JNum 5)],
            [(js ''NAME'', JUndefined), (js ''RATING'', JUndefined)]]"
    unfolding exportState_facts(1)
    by (simp add: sampleRow_def rowGet_def toUpperCase_def upperUnit_def js_def)
  show ?thesis
    using export_projects_enabled_columns [OF h, of "[]"] h
    unfolding Let_def exportState_filter c x n exportState_facts(3)
    by simp
qed


lemma bare_upper_filter: "list_all bare (map toUpperCase (filter P canonical))"
  using bare_upper_canonical by (simp add: list_all_iff)

text \<open>
  What the reader gets back from the CSV file of the export. With rows buffered and a
  column enabled, it is the upper-cased names of the enabled columns followed by one record
  for each row, holding for each enabled column the text of the cell.
\<close>

lemma csv_round_trip:
  assumes "rows w \<noteq> []" and "map fst (columns w) = canonical"
    and "activeColsOf (columns w) \<noteq> []" and "exportFormat w \<noteq> js ''xlsx''"
  shows "(\<exists>content.
            exportData now w = Inr (w\<lparr>files := files w @
              [CsvFile (js ''gmaps_export_'' @ timestampOf now @ js ''.csv'') content]\<rparr>)
            \<and> parseCsv content =
                Some (map toUpperCase (activeColsOf (columns w))
                  # map (\<lambda>r. map (\<lambda>c. cellText (rowGet r c)) (activeColsOf (columns w))) (rows w)))
         \<and> (\<forall>v. cellText v = (if truthy v then valueText v else []))"
proof -
  let ?act = "activeColsOf (columns w)"
  let ?cells = "map (\<lambda>r. map (\<lambda>c. cellText (rowGet r c)) ?act) (rows w)"
  let ?content = "join [LF] (join [comma] (map toUpperCase ?act)
            # map (\<lambda>r. join [comma]
                (map (\<lambda>c. dquote # replaceQuotes (cellText (rowGet r c)) @ [dquote]) ?act)) (rows w))"
  have act: "?act = filter (\<lambda>k. map_of (columns w) k = Some True) canonical"
    using assms(2) by (rule activeColsOf_canonical)
  have bare: "list_all bare (map toUpperCase ?act)"
    unfolding act by (rule bare_upper_filter)
  obtain h hs where hd: "map toUpperCase ?act = h # hs"
    using assms(3) by (cases "map toUpperCase ?act") auto
  have cells: "?cells \<noteq> []" "list_all (\<lambda>r. r \<noteq> []) ?cells"
    using assms(1,3) by (simp_all add: list_all_iff)
  have shape: "?content = join [LF] (join [comma] (h # hs)
            # map (\<lambda>r. join [comma] (map (\<lambda>t. dquote # replaceQuotes t @ [dquote]) r)) ?cells)"
    by (simp add: hd comp_def)
  have "parseCsv ?content = Some ((h # hs) # ?cells)"
    unfolding shape using bare [unfolded hd] cells by (rule parse_table)
  then have "parseCsv ?content = Some (map toUpperCase ?act # ?cells)"
    by (simp add: hd)
  with exportData_csv [OF assms(1,4), of now] show ?thesis
    by (auto simp add: cellText_cases)
qed

lemma csv_round_trip_example:
  "rows exportState \<noteq> [] \<and> map fst (columns exportState) = canonical
   \<and> activeColsOf (columns exportState) \<noteq> [] \<and> exportFormat exportState \<noteq> js ''xlsx''
   \<and> (\<exists>content.
         exportData [] exportState =
           Inr (exportState\<lparr>files := [CsvFile (js ''gmaps_export_.csv'') content]\<rparr>)
         \<and> parseCsv content =
             Some [[js ''NAME'', js ''RATING''], [[0x61, dquote, 0x62, comma, 0x63], js ''5''], [[], []]])"
proof -
  have h: "rows exportState \<noteq> []" "map fst (columns exportState) = canonical"
    "activeColsOf (columns exportState) \<noteq> []" "exportFormat exportState \<noteq> js ''xlsx''"
    by (simp_all add: exportState_facts(1,2) exportState_keys exportState_active js_def)
  have n: "js ''gmaps_export_'' @ timestampOf [] @ js ''.csv'' = js ''gmaps_export_.csv''"
    by (simp add: timestampOf_def js_def)
  have t: "map toUpperCase [js ''name'', js ''rating''] = [js ''NAME'', js ''RATING'']"
    by (simp add: toUpperCase_def upperUnit_def js_def)
  have "\<exists>content.
         exportData [] exportState =
           Inr (exportState\<lparr>files := [CsvFile (js ''gmaps_export_.csv'') content]\<rparr>)
         \<and> parseCsv content =
             Some [[js ''NAME'', js ''RATING''], [[0x61, dquote, 0x62, comma, 0x63], js ''5''], [[], []]]"
    using csv_round_trip [OF h, of "[]"]
    unfolding n exportState_active exportState_facts(1,3) t
    by (simp add: sample_cells)
  with h show ?thesis by simp
qed

lemma cellText_valueText:
  "v \<noteq> JNum 0 \<Longrightarrow> v \<noteq> JBool False \<Longrightarrow> cellText v = valueText v"
  by (cases v) (auto simp add: cellText_cases valueText_def)

text \<open>
  The round trip on the records whose enabled fields are neither the number 0 nor
  \<^verbatim>\<open>false\<close>, in particular on all records whose fields are text or missing: every field
  comes back as its value.
\<close>

lemma csv_round_trip_kept_values:
  assumes "rows w \<noteq> []" and "map fst (columns w) = canonical"
    and "activeColsOf (columns w) \<noteq> []" and "exportFormat w \<noteq> js ''xlsx''"
    and "\<forall>r \<in> set (rows w). \<forall>c \<in> set (activeColsOf (columns w)).
           rowGet r c \<noteq> JNum 0 \<and> rowGet r c \<noteq> JBool False"
  shows "\<exists>content.
            exportData now w = Inr (w\<lparr>files := files w @
              [CsvFile (js ''gmaps_export_'' @ timestampOf now @ js ''.csv'') content]\<rparr>)
            \<and> parseCsv content =
                Some (map toUpperCase (activeColsOf (columns w))
                  # map (\<lambda>r. map (\<lambda>c. valueText (rowGet r c)) (activeColsOf (columns w))) (rows w))"
proof -
  have "map (\<lambda>r. map (\<lambda>c. cellText (rowGet r c)) (activeColsOf (columns w))) (rows w)
      = map (\<lambda>r. map (\<lambda>c. valueText (rowGet r c)) (activeColsOf (columns w))) (rows w)"
    using assms(5) by (auto intro!: map_cong cellText_valueText)
  with csv_round_trip [OF assms(1-4), of now] show ?thesis by simp
qed





end
